theory Spec2Isabelle
  imports Complex_Main "HOL-Library.AList"
begin

section \<open>Exceptions and floating-point scores\<close>

text \<open>
  The Python exceptions that the modelled functions can let escape. \<open>TaskFailure c\<close> stands
  for whatever exception an external collaborator (tile reader, correlation primitive)
  raises inside a worker task; \<open>c\<close> only tells two such exceptions apart.
\<close>

datatype exn = ValueError | IndexError | TypeError | UnboundLocalError | AttributeError
  | TaskFailure nat

text \<open>
  Error scores are NumPy floats. They are idealised as real numbers extended by the one
  special value the source writes itself, \<open>np.inf\<close>. \<open>score_gt a b\<close> is Python's \<open>a > b\<close>.
\<close>

datatype score = Fin real | PInf

fun score_gt :: "score \<Rightarrow> score \<Rightarrow> bool" where
  "score_gt (Fin a) (Fin b) = (a > b)"
| "score_gt (Fin a) PInf = False"
| "score_gt PInf (Fin b) = True"
| "score_gt PInf PInf = False"

type_synonym shift = "real \<times> real"

section \<open>Task executor\<close>

text \<open>
  \<open>execute_parallel_with_ordered_results\<close> submits \<open>func(*arg)\<close> for every element of
  \<open>args\<close>, remembering in the dictionary \<open>futures\<close> the index \<open>i\<close> of each future, and then
  walks \<open>as_completed(futures)\<close>. The thread pool is modelled by the list \<open>order\<close>: the indices
  of the futures in the order in which \<open>as_completed\<close> yields them. A task is a function that
  either returns (\<open>Inr\<close>) or raises (\<open>Inl\<close>); \<open>future.result()\<close> re-raises the exception of a
  failed task, which leaves the loop and the function.

  \<open>collect\<close> is the body of the \<open>for future in as_completed(futures)\<close> loop:
  \<open>index = futures[future]; results[index] = future.result()\<close>. The slots of \<open>results\<close> start
  as Python's \<open>None\<close>.
\<close>

fun collect :: "(nat \<Rightarrow> exn + 'r) \<Rightarrow> nat list \<Rightarrow> 'r option list \<Rightarrow> exn + 'r option list" where
  "collect outcome [] results = Inr results"
| "collect outcome (index # rest) results =
     (case outcome index of
        Inl e \<Rightarrow> Inl e
      | Inr v \<Rightarrow> collect outcome rest (results[index := Some v]))"

definition execute_parallel_with_ordered_results ::
  "('a \<Rightarrow> exn + 'r) \<Rightarrow> 'a list \<Rightarrow> nat list \<Rightarrow> exn + 'r option list" where
  "execute_parallel_with_ordered_results func args order =
     collect (\<lambda>i. func (args ! i)) order (replicate (length args) None)"

text \<open>
  \<open>execute_parallel\<close> submits the same way but its loop only advances the progress bar:
  \<open>future.result()\<close> is never called, so an exception raised inside a task stays in its
  future and the caller never sees it. The tasks of this variant are run for their effect
  on a shared state \<open>'s\<close>; each task is taken to be atomic, and a task that raises is taken
  to leave the state as it found it.
\<close>

definition execute_parallel :: "('a \<Rightarrow> 's \<Rightarrow> exn + 's) \<Rightarrow> 'a list \<Rightarrow> nat list \<Rightarrow> 's \<Rightarrow> 's" where
  "execute_parallel func args order s =
     fold (\<lambda>i st. case func (args ! i) st of Inl e \<Rightarrow> st | Inr st' \<Rightarrow> st') order s"

section \<open>Layer aligner\<close>

text \<open>
  \<open>ParallelLayerAligner.register_all\<close>: one task per tile index, through the ordered
  executor; \<open>shift, error = list(zip(*results))\<close> transposes the list of pairs. The unpacking
  needs exactly two columns, so an empty result list (a layer without tiles) raises
  ValueError, and a slot still holding \<open>None\<close> cannot be unpacked by \<open>zip\<close> (TypeError).
  The per-tile primitive \<open>self.register\<close> belongs to the external aligner base class and is
  a parameter. The two shape assertions of the source hold by typing here: every shift is
  a pair and there is one error per result.
\<close>

record layer_alignment =
  shifts :: "shift list"
  errors :: "score list"

definition layer_register_all ::
  "(nat \<Rightarrow> exn + shift \<times> score) \<Rightarrow> nat \<Rightarrow> nat list \<Rightarrow> exn + layer_alignment" where
  "layer_register_all register n order =
     (let args = [0..<n] in
      case execute_parallel_with_ordered_results register args order of
        Inl e \<Rightarrow> Inl e
      | Inr results \<Rightarrow>
          (case those results of
             None \<Rightarrow> Inl TypeError
           | Some rs \<Rightarrow>
               if rs = [] then Inl ValueError
               else Inr \<lparr>shifts = map fst rs, errors = map snd rs\<rparr>))"

section \<open>Edge aligner: acceptance threshold\<close>

text \<open>
  What \<open>ParallelEdgeAligner\<close> takes from its surroundings. The aligner base class, the
  tile reader, the correlation primitive \<open>utils.register\<close>, NumPy's random generator and
  \<open>np.percentile\<close> are external; they are fields of \<open>edge_aligner\<close> and the model is
  parametric in them.

  \<open>its_of t1 t2 m\<close> is \<open>self.intersection(t1, t2, m)\<close>, reduced to the two attributes the
  source reads: \<open>shape\<close> (rows, columns) and the first column of \<open>offsets\<close> (the row offset of
  the overlap inside each of the two tiles). The default \<open>min_size\<close> is 0; the second call
  passes \<open>np.repeat(w, 2)\<close>, the same \<open>w\<close> on both axes.

  A random generator is a sequence of raw draws together with the number of draws already
  consumed. \<open>seeded\<close> is \<open>RandomState(0)\<close>, \<open>unseeded\<close> is \<open>RandomState()\<close>.
\<close>

record intersection =
  shape :: "int \<times> int"
  offsets :: "real \<times> real"

type_synonym image = "nat list list"
type_synonym rng = "(nat \<Rightarrow> nat) \<times> nat"
type_synonym strips = "nat \<times> nat \<times> int \<times> int"

record edge_aligner =
  edges :: "(nat \<times> nat) list"
  num_images :: int
  size0 :: int
  its_of :: "nat \<Rightarrow> nat \<Rightarrow> int \<Rightarrow> intersection"
  randomize :: bool
  seeded :: "nat \<Rightarrow> nat"
  unseeded :: "nat \<Rightarrow> nat"
  channel :: nat
  filter_sigma :: real
  false_positive_ratio :: real
  read :: "nat \<Rightarrow> nat \<Rightarrow> exn + image"
  utils_register :: "image \<Rightarrow> image \<Rightarrow> real \<Rightarrow> nat \<Rightarrow> exn + shift \<times> score"
  percentile :: "score list \<Rightarrow> real \<Rightarrow> score"

text \<open>
  The neighbours graph is undirected: \<open>(t1, t2) in edges\<close> holds for either orientation of
  a stored edge.
\<close>

definition has_edge :: "(nat \<times> nat) list \<Rightarrow> nat \<Rightarrow> nat \<Rightarrow> bool" where
  "has_edge es u v = ((u, v) \<in> set es \<or> (v, u) \<in> set es)"

text \<open>\<open>array_max\<close> is \<open>ndarray.max()\<close> on a one-dimensional array: it raises on an empty one.\<close>

fun array_max :: "int list \<Rightarrow> exn + int" where
  "array_max [] = Inl ValueError"
| "array_max (x # xs) = Inr (fold max xs x)"

text \<open>
  \<open>widths = np.array([self.intersection(t1, t2).shape.min() for t1, t2 in edges])\<close>
\<close>

definition widths :: "edge_aligner \<Rightarrow> int list" where
  "widths a = map (\<lambda>(t1, t2). min (fst (shape (its_of a t1 t2 0))) (snd (shape (its_of a t1 t2 0))))
                  (edges a)"

text \<open>\<open>w = widths.max()\<close>\<close>

definition strip_width :: "edge_aligner \<Rightarrow> exn + int" where
  "strip_width a = array_max (widths a)"

text \<open>
  \<open>random_state.randint(high, size=2)\<close>: two values in \<open>[0, high)\<close>; NumPy raises ValueError
  when \<open>high \<le> 0\<close>. A raw draw is reduced into the range.
\<close>

definition randint2 :: "int \<Rightarrow> rng \<Rightarrow> exn + (int \<times> int) \<times> rng" where
  "randint2 high r =
     (if high \<le> 0 then Inl ValueError
      else Inr ((int (fst r (snd r)) mod high, int (fst r (Suc (snd r))) mod high),
                (fst r, snd r + 2)))"

text \<open>
  One pass through the body of the retry loop up to the test:
  \<open>t1, t2 = randint(num_images, size=2); o1, o2 = randint(max_offset, size=2)\<close>.
\<close>

definition draw_strips :: "edge_aligner \<Rightarrow> int \<Rightarrow> rng \<Rightarrow> exn + strips \<times> rng" where
  "draw_strips a max_offset r =
     (case randint2 (num_images a) r of
        Inl e \<Rightarrow> Inl e
      | Inr (ts, r1) \<Rightarrow>
          (case randint2 max_offset r1 of
             Inl e \<Rightarrow> Inl e
           | Inr (os, r2) \<Rightarrow> Inr ((nat (fst ts), nat (snd ts), fst os, snd os), r2)))"

text \<open>
  The three branches of the source that end in \<open>break\<close>, in the source's order: different
  tiles that are not neighbours; the same tile with strips more than \<open>w\<close> apart; neighbours
  with a strip outside the expected overlap band.
\<close>

definition non_overlapping :: "edge_aligner \<Rightarrow> int \<Rightarrow> strips \<Rightarrow> bool" where
  "non_overlapping a w s =
     (case s of (t1, t2, o1, o2) \<Rightarrow>
        if t1 \<noteq> t2 \<and> \<not> has_edge (edges a) t1 t2 then True
        else if t1 = t2 \<and> \<bar>o1 - o2\<bar> > w then True
        else if has_edge (edges a) t1 t2 then
          (let its = its_of a t1 t2 w; ioff1 = fst (offsets its); ioff2 = snd (offsets its)
           in fst (shape its) > snd (shape its)
              \<or> real_of_int o1 < ioff1 - real_of_int w
              \<or> real_of_int o1 > ioff1 + real_of_int w
              \<or> real_of_int o2 < ioff2 - real_of_int w
              \<or> real_of_int o2 > ioff2 + real_of_int w)
        else False)"

definition max_tries :: nat where
  "max_tries = 100"

text \<open>
  \<open>for current_try in range(max_tries)\<close> with its \<open>else\<close>. The first argument counts the
  passes still to run, \<open>used\<close> the passes made. \<open>cur\<close> is the current binding of
  \<open>t1, t2, o1, o2\<close> (\<open>None\<close> while the names are unbound). The result carries the binding, the
  generator, the number of passes made and whether the loop ran out without \<open>break\<close>.
\<close>

fun retry :: "edge_aligner \<Rightarrow> int \<Rightarrow> int \<Rightarrow> nat \<Rightarrow> nat \<Rightarrow> rng \<Rightarrow> strips option
              \<Rightarrow> exn + strips option \<times> rng \<times> nat \<times> bool" where
  "retry a w max_offset 0 used r cur = Inr (cur, r, used, True)"
| "retry a w max_offset (Suc k) used r cur =
     (case draw_strips a max_offset r of
        Inl e \<Rightarrow> Inl e
      | Inr (s, r') \<Rightarrow>
          if non_overlapping a w s then Inr (Some s, r', Suc used, False)
          else retry a w max_offset k (Suc used) r' (Some s))"

text \<open>
  The message of the warning as the source writes it: the string literal has no \<open>f\<close>
  prefix, so the braces are not substituted.
\<close>

definition exhausted_warning :: string where
  "exhausted_warning = ''Could not find non-overlapping strips in {max_tries} tries''"

text \<open>
  \<open>for i in range(n)\<close>: one retry loop per sample, then \<open>pairs[i] = t1, t2\<close> and
  \<open>offsets[i] = o1, o2\<close>, which need the names bound. A sample is stored with the number of
  passes its retry loop made and whether that loop ran out; both are bookkeeping of the
  model, the source keeps neither. The warnings are returned in the order they are issued.
\<close>

type_synonym sample = "strips \<times> nat \<times> bool"

fun sample_loop :: "edge_aligner \<Rightarrow> int \<Rightarrow> int \<Rightarrow> nat \<Rightarrow> rng \<Rightarrow> strips option
                    \<Rightarrow> exn + sample list \<times> rng \<times> string list" where
  "sample_loop a w max_offset 0 r cur = Inr ([], r, [])"
| "sample_loop a w max_offset (Suc i) r cur =
     (case retry a w max_offset max_tries 0 r cur of
        Inl e \<Rightarrow> Inl e
      | Inr (cur', r', used, ran_out) \<Rightarrow>
          (case cur' of
             None \<Rightarrow> Inl UnboundLocalError
           | Some s \<Rightarrow>
               (case sample_loop a w max_offset i r' cur' of
                  Inl e \<Rightarrow> Inl e
                | Inr (rest, r'', warns) \<Rightarrow>
                    Inr ((s, used, ran_out) # rest, r'',
                         (if ran_out then [exhausted_warning] else []) @ warns))))"

text \<open>
  Python's \<open>xs[start:stop]\<close> for \<open>start \<ge> 0\<close>: a negative \<open>stop\<close> counts from the end, and
  both bounds are clipped to the length.
\<close>

definition slice_rows :: "'x list \<Rightarrow> int \<Rightarrow> int \<Rightarrow> 'x list" where
  "slice_rows xs start stop =
     (let n = int (length xs);
          hi = (if stop < 0 then max 0 (n + stop) else min stop n);
          lo = min start n
      in take (nat (hi - lo)) (drop (nat lo) xs))"

text \<open>
  The local function \<open>register(t1, t2, offset1, offset2)\<close> of \<open>compute_threshold\<close>: two
  reads, two strips of \<open>w\<close> rows, one call of the correlation primitive with
  \<open>upsample=1\<close>; only the error is returned.
\<close>

definition register_strips :: "edge_aligner \<Rightarrow> int \<Rightarrow> strips \<Rightarrow> exn + score" where
  "register_strips a w s =
     (case s of (t1, t2, offset1, offset2) \<Rightarrow>
        (case read a t1 (channel a) of
           Inl e \<Rightarrow> Inl e
         | Inr full1 \<Rightarrow>
             (case read a t2 (channel a) of
                Inl e \<Rightarrow> Inl e
              | Inr full2 \<Rightarrow>
                  (case utils_register a (slice_rows full1 offset1 (offset1 + w))
                          (slice_rows full2 offset2 (offset2 + w)) (filter_sigma a) 1 of
                     Inl e \<Rightarrow> Inl e
                   | Inr (_, error) \<Rightarrow> Inr error))))"

text \<open>
  The part of the aligner that \<open>compute_threshold\<close> writes, \<open>errors_negative_sampled\<close> and
  \<open>max_error\<close>, together with a record of what the call did: the samples drawn, the
  warnings issued, the number of raw draws taken from the generator, and the argument
  tuples handed to the executor (every submitted task runs, also when another one fails).
\<close>

record threshold =
  errors_negative_sampled :: "score list"
  max_error :: score
  samples :: "sample list"
  warnings :: "string list"
  draws :: nat
  submitted :: "strips list"

text \<open>
  \<open>ParallelEdgeAligner.compute_threshold\<close>. \<open>np.empty((n, 2))\<close> raises ValueError for a
  negative \<open>n\<close>. \<open>order\<close> is the completion order of the registration tasks. A result slot
  that is still \<open>None\<close> makes \<open>np.percentile\<close> fail on the object array (TypeError).
\<close>

definition compute_threshold :: "edge_aligner \<Rightarrow> nat list \<Rightarrow> exn + threshold" where
  "compute_threshold a order =
     (let num_tiles = num_images a in
      if length (edges a) \<le> 1 then
        Inr \<lparr>errors_negative_sampled = [], max_error = PInf,
             samples = [], warnings = [], draws = 0, submitted = []\<rparr>
      else
        (case strip_width a of
           Inl e \<Rightarrow> Inl e
         | Inr w \<Rightarrow>
             (let max_offset = size0 a - w;
                  num_distant_pairs = num_tiles * (num_tiles - 1) div 2 - int (length (edges a));
                  n = (if num_distant_pairs > 8 then 1000 else (num_distant_pairs + 1) * 10);
                  random_state = (if randomize a = False then seeded a else unseeded a)
              in if n < 0 then Inl ValueError
                 else
                   (case sample_loop a w max_offset (nat n) (random_state, 0) None of
                      Inl e \<Rightarrow> Inl e
                    | Inr (drawn, r, warns) \<Rightarrow>
                        (let args = map fst drawn in
                         case execute_parallel_with_ordered_results (register_strips a w) args order of
                           Inl e \<Rightarrow> Inl e
                         | Inr results \<Rightarrow>
                             (case those results of
                                None \<Rightarrow> Inl TypeError
                              | Some errs \<Rightarrow>
                                  Inr \<lparr>errors_negative_sampled = errs,
                                       max_error = percentile a errs (false_positive_ratio a * 100),
                                       samples = drawn, warnings = warns, draws = snd r,
                                       submitted = args\<rparr>))))))"

section \<open>Edge aligner: registration of all edges\<close>

text \<open>
  The alignment records live in the dictionary \<open>self._cache\<close>: an association list with
  one entry per key, in insertion order (\<open>AList.update\<close> replaces the value of a key in
  place and appends a new key at the end, as a Python dictionary does).
\<close>

type_synonym cache = "((nat \<times> nat) \<times> shift \<times> score) list"

text \<open>
  Modelled from the spec: \<open>EdgeAligner.register_pair\<close> is inherited from the aligner base
  class of the external stitching library and is not in the source tree. The specification
  says that registering an edge runs the correlation primitive on the two tiles' overlap
  and that the resulting record (shift, error) is keyed by the edge of the undirected
  graph. The primitive on an edge is the parameter \<open>align\<close>; the key is the edge with its
  endpoints in ascending order.
\<close>

definition edge_key :: "nat \<times> nat \<Rightarrow> nat \<times> nat" where
  "edge_key e = (min (fst e) (snd e), max (fst e) (snd e))"

definition register_pair ::
  "(nat \<times> nat \<Rightarrow> exn + shift \<times> score) \<Rightarrow> nat \<times> nat \<Rightarrow> cache \<Rightarrow> exn + cache" where
  "register_pair align e c =
     (let key = edge_key e in
      case align key of
        Inl x \<Rightarrow> Inl x
      | Inr v \<Rightarrow> Inr (AList.update key v c))"

text \<open>\<open>np.any(np.abs(v[0]) > self.max_shift_pixels)\<close>: some component is too large.\<close>

definition shift_exceeds :: "shift \<Rightarrow> real \<Rightarrow> bool" where
  "shift_exceeds v max_shift_pixels = (\<bar>fst v\<bar> > max_shift_pixels \<or> \<bar>snd v\<bar> > max_shift_pixels)"

text \<open>
  The test of the rejection loop and the loop itself:
  \<open>for k, v in self._cache.items(): if ...: self._cache[k] = (v[0], np.inf)\<close>.
  The loop replaces values only, so it visits the entries that the dictionary held when it
  started, each once.
\<close>

definition rejected :: "score \<Rightarrow> real \<Rightarrow> shift \<times> score \<Rightarrow> bool" where
  "rejected threshold max_shift_pixels v =
     (score_gt (snd v) threshold \<or> shift_exceeds (fst v) max_shift_pixels)"

definition reject_all :: "score \<Rightarrow> real \<Rightarrow> cache \<Rightarrow> cache" where
  "reject_all threshold max_shift_pixels c =
     fold (\<lambda>kv c'. if rejected threshold max_shift_pixels (snd kv)
                     then AList.update (fst kv) (fst (snd kv), PInf) c' else c') c c"

record edge_registration =
  all_errors :: "score list"
  records :: cache

text \<open>
  \<open>ParallelEdgeAligner.register_all\<close>: one task per graph edge through the unordered
  executor, then \<open>all_errors\<close> from the dictionary's values, then the rejection loop.
  \<open>threshold\<close> is \<open>self.max_error\<close>.
\<close>

definition edge_register_all ::
  "(nat \<times> nat \<Rightarrow> exn + shift \<times> score) \<Rightarrow> (nat \<times> nat) list \<Rightarrow> nat list \<Rightarrow> score \<Rightarrow> real
     \<Rightarrow> cache \<Rightarrow> edge_registration" where
  "edge_register_all align es order threshold max_shift_pixels c =
     (let args = es;
          c1 = execute_parallel (register_pair align) args order c
      in \<lparr>all_errors = map (\<lambda>kv. snd (snd kv)) c1,
          records = reject_all threshold max_shift_pixels c1\<rparr>)"

section \<open>Pipeline: when the thumbnail is built\<close>

text \<open>
  A run is followed through the calls it makes. A step is recorded when the call is made;
  a run is the outcome together with the steps made so far, and a call that raises ends
  the run with its exception after its own step.
\<close>

datatype step = MakeThumbnail nat | ComputeThreshold nat | RegisterEdges nat
  | RegisterTiles nat | SolvePositions nat | WriteMosaics

type_synonym run = "(exn + unit) \<times> step list"

definition call :: "step \<Rightarrow> exn + 'x \<Rightarrow> run" where
  "call s outcome = (case outcome of Inl e \<Rightarrow> (Inl e, [s]) | Inr v \<Rightarrow> (Inr (), [s]))"

definition and_then :: "run \<Rightarrow> run \<Rightarrow> run" where
  "and_then p q = (case fst p of Inl e \<Rightarrow> p | Inr u \<Rightarrow> (fst q, snd p @ snd q))"

text \<open>
  The module-level \<open>make_thumbnail(reader, channel)\<close>: it reads every tile of the reader in
  index order, rescales it and pastes it into the thumbnail. Rescaling and pasting are
  external; the thumbnail is represented by the tiles read. A read that raises ends it.
  The reader is the part of \<open>edge_aligner\<close> that holds \<open>read\<close> and \<open>num_images\<close>.
\<close>

fun read_tiles :: "(nat \<Rightarrow> exn + image) \<Rightarrow> nat list \<Rightarrow> exn + image list" where
  "read_tiles rd [] = Inr []"
| "read_tiles rd (i # rest) =
     (case rd i of
        Inl e \<Rightarrow> Inl e
      | Inr img \<Rightarrow>
          (case read_tiles rd rest of Inl e \<Rightarrow> Inl e | Inr imgs \<Rightarrow> Inr (img # imgs)))"

definition make_thumbnail :: "edge_aligner \<Rightarrow> nat \<Rightarrow> exn + image list" where
  "make_thumbnail reader ch = read_tiles (\<lambda>i. read reader i ch) [0..<nat (num_images reader)]"

text \<open>
  \<open>aligner_args\<close> is a keyword dictionary; the one key read here is \<open>do_make_thumbnail\<close>,
  which may be absent.
\<close>

record aligner_args =
  do_make_thumbnail :: "bool option"

text \<open>
  What one input file contributes: the outcome of opening it
  (\<open>ThreadSafeBioformatsReader(path)\<close> and \<open>process_axis_flip\<close>; on success the reader with
  its metadata and collaborators), the completion order of the registration tasks of its
  cycle, the per-tile primitive of the layer aligner built on it when it is not the first
  file, and the outcome of the external position solving that ends an aligner's run.
\<close>

record cycle =
  opened :: "exn + edge_aligner"
  completion :: "nat list"
  register_tile :: "nat \<Rightarrow> exn + shift \<times> score"
  solved :: "exn + unit"

text \<open>
  \<open>ParallelEdgeAligner.make_thumbnail\<close>: return at once when \<open>do_make_thumbnail\<close> is
  false, otherwise build the thumbnail of the reader.
\<close>

definition edge_make_thumbnail :: "bool \<Rightarrow> edge_aligner \<Rightarrow> run" where
  "edge_make_thumbnail do_make a =
     (if \<not> do_make then (Inr (), [])
      else call (MakeThumbnail 0) (make_thumbnail a (channel a)))"

text \<open>
  Modelled from the spec: the \<open>run\<close> method of the edge aligner belongs to the external
  base class. The specification gives the order of its states: constructed, thumbnail
  built (optional), threshold computed, edges registered, done; the global tile positions
  are then resolved by the external position solving. \<open>register_all\<close> itself lets no
  exception out, since its executor ignores the outcome of the tasks.
\<close>

definition edge_aligner_run :: "bool \<Rightarrow> cycle \<Rightarrow> edge_aligner \<Rightarrow> run" where
  "edge_aligner_run do_make c a =
     and_then (edge_make_thumbnail do_make a)
       (and_then (call (ComputeThreshold 0) (compute_threshold a (completion c)))
          (and_then (call (RegisterEdges 0) (Inr () :: exn + unit))
             (call (SolvePositions 0) (solved c))))"

text \<open>
  Modelled from the spec: the \<open>run\<close> method of the layer aligner also belongs to the
  external base class. \<open>ParallelLayerAligner.make_thumbnail\<close> has no switch;
  \<open>ParallelLayerAligner.register_all\<close> then registers every tile of the layer, and the
  positions are resolved.
\<close>

definition layer_aligner_run :: "nat \<Rightarrow> cycle \<Rightarrow> edge_aligner \<Rightarrow> run" where
  "layer_aligner_run n c reader =
     and_then (call (MakeThumbnail n) (make_thumbnail reader (channel reader)))
       (and_then (call (RegisterTiles n)
                    (layer_register_all (register_tile c) (nat (num_images reader)) (completion c)))
          (call (SolvePositions n) (solved c)))"

text \<open>
  The loop \<open>for cycle, filepath in enumerate(filepaths[1:], 1)\<close>. The unchanged
  \<open>aligner_args\<close> are passed to \<open>ParallelLayerAligner\<close>. Its constructor is that of the
  external base class, which has no \<open>do_make_thumbnail\<close> parameter (the switch belongs to
  the edge aligner only), so a dictionary that carries the key makes the call raise
  TypeError.
\<close>

fun layer_cycles :: "aligner_args \<Rightarrow> nat \<Rightarrow> cycle list \<Rightarrow> run" where
  "layer_cycles args n [] = (Inr (), [])"
| "layer_cycles args n (c # rest) =
     (case opened c of
        Inl e \<Rightarrow> (Inl e, [])
      | Inr reader \<Rightarrow>
          if do_make_thumbnail args \<noteq> None then (Inl TypeError, [])
          else and_then (layer_aligner_run n c reader) (layer_cycles args (Suc n) rest))"

text \<open>
  \<open>process_single\<close>. \<open>mosaic_args\<close> and \<open>aligner_args\<close> may be \<open>None\<close>, and \<open>.copy()\<close> then
  raises AttributeError; \<open>filepaths[0]\<close> raises IndexError on an empty list. The switch is
  turned off when there is exactly one file; a constructor that is not told otherwise
  builds the thumbnail. Constructing the mosaics is taken to return. What \<open>writer.run()\<close>
  does is not followed; its outcome is the parameter \<open>written\<close>.
\<close>

definition process_single ::
  "cycle list \<Rightarrow> aligner_args option \<Rightarrow> 'm option \<Rightarrow> exn + unit \<Rightarrow> run" where
  "process_single filepaths aligner_args mosaic_args written =
     (case mosaic_args of
        None \<Rightarrow> (Inl AttributeError, [])
      | Some margs \<Rightarrow>
          (case filepaths of
             [] \<Rightarrow> (Inl IndexError, [])
           | first # later \<Rightarrow>
               (case opened first of
                  Inl e \<Rightarrow> (Inl e, [])
                | Inr reader \<Rightarrow>
                    (case aligner_args of
                       None \<Rightarrow> (Inl AttributeError, [])
                     | Some args \<Rightarrow>
                         (let ea_args = (if length filepaths = 1
                                         then args\<lparr>do_make_thumbnail := Some False\<rparr> else args);
                              do_make = (case do_make_thumbnail ea_args of
                                           None \<Rightarrow> True | Some b \<Rightarrow> b)
                          in and_then (edge_aligner_run do_make first reader)
                               (and_then (layer_cycles args 1 later)
                                  (call WriteMosaics written)))))))"

section \<open>Mosaic assembler\<close>

text \<open>
  A two-dimensional array is its list of rows together with the number of columns (which
  the rows of an array without rows cannot tell). \<open>len(out)\<close> is the number of rows.
\<close>

record ndarray =
  rows :: "nat list list"
  ncols :: nat

definition arr_shape :: "ndarray \<Rightarrow> nat \<times> nat" where
  "arr_shape x = (length (rows x), ncols x)"

definition zeros :: "nat \<times> nat \<Rightarrow> ndarray" where
  "zeros sh = \<lparr>rows = replicate (fst sh) (replicate (snd sh) 0), ncols = snd sh\<rparr>"

text \<open>
  What \<open>ParallelMosaic\<close> takes from its surroundings: the mosaic shape and the flip flags
  of the base class, the illumination correction, the reader, and \<open>utils.paste\<close> with the
  blend function, which writes into the canvas it is given.
\<close>

record mosaic =
  mshape :: "nat \<times> nat"
  flip_mosaic_x :: bool
  flip_mosaic_y :: bool
  mread :: "nat \<Rightarrow> nat \<Rightarrow> exn + image"
  correct_illumination :: "image \<Rightarrow> nat \<Rightarrow> image"
  paste :: "ndarray \<Rightarrow> image \<Rightarrow> real \<times> real \<Rightarrow> ndarray"

datatype action = TileRead nat nat | Corrected nat | Pasted nat

text \<open>
  \<open>for i in range(len(out)): out[i] = out[i, ::-1]\<close>
\<close>

definition flip_x :: "nat list list \<Rightarrow> nat list list" where
  "flip_x rs = fold (\<lambda>i r. r[i := rev (r ! i)]) [0..<length rs] rs"

text \<open>
  \<open>for i in range(len(out) // 2): out[[i, -i - 1]] = out[[-i - 1, i]]\<close>. The right-hand
  side is a copy of rows \<open>-i - 1\<close> and \<open>i\<close>, taken before either row is written.
\<close>

definition flip_y :: "nat list list \<Rightarrow> nat list list" where
  "flip_y rs =
     fold (\<lambda>i r. r[i := r ! (length r - 1 - i), length r - 1 - i := r ! i]) [0..<length rs div 2] rs"

text \<open>
  The paste loop \<open>for si, position in enumerate(positions)\<close>. The state is the canvas and
  the list of actions performed so far; a read that raises leaves the loop with the canvas
  as pasted up to then.
\<close>

fun paste_tiles :: "mosaic \<Rightarrow> nat \<Rightarrow> nat \<Rightarrow> (real \<times> real) list \<Rightarrow> ndarray \<times> action list
                    \<Rightarrow> (exn + unit) \<times> ndarray \<times> action list" where
  "paste_tiles m ch si [] (out, acts) = (Inr (), out, acts)"
| "paste_tiles m ch si (position # rest) (out, acts) =
     (case mread m ch si of
        Inl e \<Rightarrow> (Inl e, out, acts @ [TileRead ch si])
      | Inr img \<Rightarrow>
          paste_tiles m ch (Suc si) rest
            (paste m out (correct_illumination m img ch) position,
             acts @ [TileRead ch si, Corrected si, Pasted si]))"

definition apply_flips :: "mosaic \<Rightarrow> ndarray \<Rightarrow> ndarray" where
  "apply_flips m out =
     (let out1 = (if flip_mosaic_x m then out\<lparr>rows := flip_x (rows out)\<rparr> else out)
      in if flip_mosaic_y m then out1\<lparr>rows := flip_y (rows out1)\<rparr> else out1)"

text \<open>
  \<open>ParallelMosaic.assemble_channel_parallel\<close>. The result has three parts: what the call
  returns or raises, the caller's buffer after the call (\<open>None\<close> when none was supplied; the
  canvas is written in place, so a supplied buffer ends as the returned canvas), and the
  actions performed.
\<close>

definition assemble_channel_parallel ::
  "mosaic \<Rightarrow> nat \<Rightarrow> (real \<times> real) list \<Rightarrow> ndarray option
     \<Rightarrow> (exn + ndarray) \<times> ndarray option \<times> action list" where
  "assemble_channel_parallel m ch positions out =
     (case out of
        Some buf \<Rightarrow>
          if arr_shape buf \<noteq> mshape m then (Inl ValueError, Some buf, [])
          else
            (case paste_tiles m ch 0 positions (buf, []) of
               (Inl e, buf', acts) \<Rightarrow> (Inl e, Some buf', acts)
             | (Inr u, buf', acts) \<Rightarrow> (Inr (apply_flips m buf'), Some (apply_flips m buf'), acts))
      | None \<Rightarrow>
          (case paste_tiles m ch 0 positions (zeros (mshape m), []) of
             (Inl e, buf', acts) \<Rightarrow> (Inl e, None, acts)
           | (Inr u, buf', acts) \<Rightarrow> (Inr (apply_flips m buf'), None, acts)))"

section \<open>Example layers\<close>

text \<open>
  Three tiles in a row with two edges; the overlaps are 3 and 5 columns wide and as high as
  the tile (10 rows). \<open>wide_tiles\<close> has overlaps of 12 columns, wider than the tile is high;
  \<open>two_tiles\<close> has a single edge.
\<close>

definition three_tiles :: edge_aligner where
  "three_tiles =
     \<lparr>edges = [(0, 1), (1, 2)], num_images = 3, size0 = 10,
      its_of = (\<lambda>t1 t2 m. \<lparr>shape = (10, if t1 = 0 then 3 else 5), offsets = (0, 0)\<rparr>),
      randomize = False, seeded = (\<lambda>k. k), unseeded = (\<lambda>k. 0),
      channel = 0, filter_sigma = 0, false_positive_ratio = 1 / 100,
      read = (\<lambda>t c. Inr [[0, 0], [0, 0]]),
      utils_register = (\<lambda>x y sigma up. Inr ((0, 0), Fin 1)),
      percentile = (\<lambda>es q. Fin 1)\<rparr>"

definition wide_tiles :: edge_aligner where
  "wide_tiles = three_tiles\<lparr>its_of := (\<lambda>t1 t2 m. \<lparr>shape = (10, 12), offsets = (0, 0)\<rparr>)\<rparr>"

definition two_tiles :: edge_aligner where
  "two_tiles = three_tiles\<lparr>edges := [(0, 1)], num_images := 2\<rparr>"

text \<open>
  Registration results for three edges: an error above a threshold of 3, a shift beyond 15
  pixels, and an alignment that passes both tests.
\<close>

definition example_records :: "nat \<times> nat \<Rightarrow> shift \<times> score" where
  "example_records k =
     (if k = (0, 2) then ((1, 2), Fin 5) else if k = (2, 3) then ((30, 0), Fin 1) else ((1, 1), Fin 1))"

text \<open>
  A mosaic of three rows and two columns. Tile \<open>si\<close> is the single row \<open>[si + 1, si + 2]\<close>, and
  pasting writes it over the canvas row at the position's first coordinate.
\<close>

definition strip_mosaic :: mosaic where
  "strip_mosaic =
     \<lparr>mshape = (3, 2), flip_mosaic_x = False, flip_mosaic_y = False,
      mread = (\<lambda>c si. Inr [[si + 1, si + 2]]),
      correct_illumination = (\<lambda>img c. img),
      paste = (\<lambda>out img pos. out\<lparr>rows := (rows out)[nat \<lfloor>fst pos\<rfloor> := concat img]\<rparr>)\<rparr>"


definition two_tile_file :: cycle where
  "two_tile_file = \<lparr>opened = Inr two_tiles, completion = [0, 1],
      register_tile = (\<lambda>i. Inr ((0, 0), Fin 1)), solved = Inr ()\<rparr>"


section \<open>Properties of the task executor\<close>

lemma collect_all_return:
  assumes "\<forall>i\<in>set order. outcome i = Inr (g i)"
  shows "collect outcome order results = Inr (fold (\<lambda>i rs. rs[i := Some (g i)]) order results)"
  using assms by (induction order arbitrary: results) simp_all

lemma length_fold_store [simp]:
  "length (fold (\<lambda>i rs. rs[i := h i]) order results) = length results"
  by (induction order arbitrary: results) simp_all

lemma nth_fold_store:
  "j < length results \<Longrightarrow>
   fold (\<lambda>i rs. rs[i := h i]) order results ! j = (if j \<in> set order then h j else results ! j)"
proof (induction order arbitrary: results)
  case Nil
  then show ?case by simp
next
  case (Cons i order)
  then show ?case by (cases "i = j") auto
qed

lemma fold_store_complete:
  assumes "set order = {0..<n}"
  shows "fold (\<lambda>i rs. rs[i := h i]) order (replicate n None) = map h [0..<n]"
  by (rule nth_equalityI) (simp_all add: nth_fold_store assms)

lemma ordered_results_all_return:
  assumes "set order = {0..<length args}"
    and "\<forall>a\<in>set args. func a = Inr (f a)"
  shows "execute_parallel_with_ordered_results func args order = Inr (map (\<lambda>a. Some (f a)) args)"
proof -
  have "\<forall>i\<in>set order. func (args ! i) = Inr (f (args ! i))"
    using assms by simp
  then have "execute_parallel_with_ordered_results func args order =
      Inr (fold (\<lambda>i rs. rs[i := Some (f (args ! i))]) order (replicate (length args) None))"
    unfolding execute_parallel_with_ordered_results_def by (rule collect_all_return)
  also have "fold (\<lambda>i rs. rs[i := Some (f (args ! i))]) order (replicate (length args) None)
      = map (\<lambda>i. Some (f (args ! i))) [0..<length args]"
    using assms(1) by (rule fold_store_complete)
  also have "\<dots> = map (\<lambda>a. Some (f a)) args"
    by (rule nth_equalityI) simp_all
  finally show ?thesis .
qed

lemma those_map_Some [simp]: "those (map (\<lambda>a. Some (f a)) xs) = Some (map f xs)"
  by (induction xs) simp_all

section \<open>Ordered results\<close>

lemma collect_failure:
  assumes "i \<in> set order" and "outcome i = Inl e"
  shows "\<exists>e'. collect outcome order results = Inl e'"
  using assms by (induction order arbitrary: results) (auto split: sum.splits)

text \<open>
  C1. Whatever the order in which the futures complete, as long as every submitted future
  is yielded and every task returns, the ordered executor returns one result per argument
  tuple, and the result in slot \<open>i\<close> is the value of the function on argument tuple \<open>i\<close>.
  \<open>ParallelLayerAligner.register_all\<close> inherits the mapping: \<open>shifts[i]\<close> and \<open>errors[i]\<close> are
  the two components of the registration of tile \<open>i\<close>. (For a layer without tiles the
  unpacking of the transposed result raises ValueError.)
\<close>

theorem ordered_results_match_tasks:
  assumes "set order = {0..<length args}"
    and "\<forall>a\<in>set args. func a = Inr (f a)"
    and "set order' = {0..<n}"
    and "\<forall>i<n. register i = Inr (g i)"
  shows "execute_parallel_with_ordered_results func args order = Inr (map (\<lambda>a. Some (f a)) args)
       \<and> layer_register_all register n order' =
           (if n = 0 then Inl ValueError
            else Inr \<lparr>shifts = map (\<lambda>i. fst (g i)) [0..<n], errors = map (\<lambda>i. snd (g i)) [0..<n]\<rparr>)"
proof
  show "execute_parallel_with_ordered_results func args order = Inr (map (\<lambda>a. Some (f a)) args)"
    using assms(1,2) by (rule ordered_results_all_return)
next
  have "set order' = {0..<length [0..<n]}"
    using assms(3) by simp
  moreover have "\<forall>i\<in>set [0..<n]. register i = Inr (g i)"
    using assms(4) by simp
  ultimately have "execute_parallel_with_ordered_results register [0..<n] order'
      = Inr (map (\<lambda>i. Some (g i)) [0..<n])"
    by (rule ordered_results_all_return)
  then show "layer_register_all register n order' =
           (if n = 0 then Inl ValueError
            else Inr \<lparr>shifts = map (\<lambda>i. fst (g i)) [0..<n], errors = map (\<lambda>i. snd (g i)) [0..<n]\<rparr>)"
    by (simp add: layer_register_all_def)
qed

theorem ordered_results_match_tasks_witness:
  "execute_parallel_with_ordered_results (\<lambda>a. Inr (a * a)) [3, 1, 2 :: nat] [2, 0, 1]
     = (Inr [Some 9, Some 1, Some 4] :: exn + nat option list)
   \<and> layer_register_all (\<lambda>i. Inr ((real i, 0), Fin 1)) 2 [1, 0]
     = Inr \<lparr>shifts = [(0, 0), (1, 0)], errors = [Fin 1, Fin 1]\<rparr>"
proof -
  have h1: "set [2, 0, 1] = {0..<length [3, 1, 2 :: nat]}"
    by auto
  have h2: "\<forall>a\<in>set [3, 1, 2 :: nat]. (Inr (a * a) :: exn + nat) = Inr (a * a)"
    by simp
  have h3: "set [1, 0] = {0..<2::nat}"
    by auto
  have h4: "\<forall>i<2::nat. (Inr ((real i, 0), Fin 1) :: exn + shift \<times> score) = Inr ((real i, 0), Fin 1)"
    by simp
  have u: "[0..<2] = [0, Suc 0]"
    by (simp add: upt_rec)
  show ?thesis
    using ordered_results_match_tasks [OF h1 h2 h3 h4] by (simp add: u)
qed

section \<open>Properties of the threshold computation\<close>

lemma array_max_Max:
  assumes "xs \<noteq> []"
  shows "array_max xs = Inr (Max (set xs))"
proof (cases xs)
  case Nil
  with assms show ?thesis by simp
next
  case (Cons x rest)
  then show ?thesis using Max.set_eq_fold [of x rest] by simp
qed

lemma randint2_raises: "high \<le> 0 \<Longrightarrow> randint2 high r = Inl ValueError"
  by (simp add: randint2_def)

lemma draw_strips_raises: "max_offset \<le> 0 \<Longrightarrow> draw_strips a max_offset r = Inl ValueError"
  by (simp add: draw_strips_def randint2_def split: sum.splits)

lemma draw_strips_returns:
  assumes "0 < num_images a" and "0 < max_offset"
  shows "\<exists>s. draw_strips a max_offset r = Inr (s, (fst r, snd r + 4))"
  using assms by (simp add: draw_strips_def randint2_def)

lemma retry_total:
  assumes "0 < num_images a" and "0 < max_offset"
  shows "\<exists>res. retry a w max_offset k used r cur = Inr res"
proof (induction k arbitrary: used r cur)
  case 0
  show ?case by auto
next
  case (Suc k)
  obtain s where d: "draw_strips a max_offset r = Inr (s, (fst r, snd r + 4))"
    using draw_strips_returns [OF assms] by blast
  show ?case
    using d Suc.IH [of "Suc used" "(fst r, snd r + 4)" "Some s"] by auto
qed

lemma retry_count:
  assumes "0 < num_images a" and "0 < max_offset"
    and "retry a w max_offset k used r cur = Inr (cur', r', u, ran_out)"
  shows "used \<le> u \<and> u \<le> used + k \<and> (ran_out \<longrightarrow> u = used + k)
         \<and> r' = (fst r, snd r + 4 * (u - used))"
  using assms(3)
proof (induction k arbitrary: used r cur)
  case 0
  then show ?case by simp
next
  case (Suc k)
  obtain s where d: "draw_strips a max_offset r = Inr (s, (fst r, snd r + 4))"
    using draw_strips_returns [OF assms(1,2)] by blast
  show ?case
  proof (cases "non_overlapping a w s")
    case True
    with d Suc.prems show ?thesis by auto
  next
    case False
    with d Suc.prems
    have "retry a w max_offset k (Suc used) (fst r, snd r + 4) (Some s) = Inr (cur', r', u, ran_out)"
      by simp
    from Suc.IH [OF this]
    have "Suc used \<le> u" "u \<le> Suc used + k" "ran_out \<longrightarrow> u = Suc used + k"
      "r' = (fst r, snd r + 4 + 4 * (u - Suc used))"
      by simp_all
    moreover from \<open>Suc used \<le> u\<close> have "snd r + 4 + 4 * (u - Suc used) = snd r + 4 * (u - used)"
      by simp
    ultimately show ?thesis by simp
  qed
qed

lemma retry_last_drawn:
  assumes "0 < num_images a" and "0 < max_offset"
    and "retry a w max_offset k used r cur = Inr (cur', r', u, ran_out)"
    and "0 < k"
  shows "\<exists>s. cur' = Some s
           \<and> draw_strips a max_offset (fst r, snd r + 4 * (u - used - 1)) = Inr (s, r')
           \<and> ran_out = (\<not> non_overlapping a w s)"
  using assms(3,4)
proof (induction k arbitrary: used r cur)
  case 0
  then show ?case by simp
next
  case (Suc k)
  obtain s where d: "draw_strips a max_offset r = Inr (s, (fst r, snd r + 4))"
    using draw_strips_returns [OF assms(1,2)] by blast
  show ?case
  proof (cases "non_overlapping a w s")
    case True
    with d Suc.prems have "cur' = Some s" "r' = (fst r, snd r + 4)" "u = Suc used" "\<not> ran_out"
      by simp_all
    with d True show ?thesis by simp
  next
    case False
    with d Suc.prems
    have eq: "retry a w max_offset k (Suc used) (fst r, snd r + 4) (Some s) = Inr (cur', r', u, ran_out)"
      by simp
    show ?thesis
    proof (cases "k = 0")
      case True
      with eq have "cur' = Some s" "r' = (fst r, snd r + 4)" "u = Suc used" "ran_out"
        by simp_all
      with d False show ?thesis by simp
    next
      case False
      then have "0 < k" by simp
      from Suc.IH [OF eq this] obtain s' where
        s': "cur' = Some s'"
          "draw_strips a max_offset (fst r, snd r + 4 + 4 * (u - Suc used - 1)) = Inr (s', r')"
          "ran_out = (\<not> non_overlapping a w s')"
        by auto
      have "Suc used \<le> u"
        using retry_count [OF assms(1,2) eq] by simp
      moreover have "u \<noteq> Suc used"
      proof
        assume "u = Suc used"
        then have "r' = (fst r, snd r + 4)"
          using retry_count [OF assms(1,2) eq] by simp
        moreover have "snd r' = snd r + 4 + 4"
          using s'(2) draw_strips_returns [OF assms(1,2), of "(fst r, snd r + 4 + 4 * (u - Suc used - 1))"]
            \<open>u = Suc used\<close> by auto
        ultimately show False by simp
      qed
      ultimately have "snd r + 4 + 4 * (u - Suc used - 1) = snd r + 4 * (u - used - 1)"
        by simp
      with s'(2) have "draw_strips a max_offset (fst r, snd r + 4 * (u - used - 1)) = Inr (s', r')"
        by (simp only:)
      with s'(1,3) show ?thesis by blast
    qed
  qed
qed

lemma max_tries_Suc: "max_tries = Suc 99"
  by (simp add: max_tries_def)

lemma retry_progress:
  assumes "0 < num_images a" and "0 < max_offset"
    and "retry a w max_offset (Suc k) used r cur = Inr (cur', r', u, ran_out)"
  shows "used < u"
proof -
  obtain s where d: "draw_strips a max_offset r = Inr (s, (fst r, snd r + 4))"
    using draw_strips_returns [OF assms(1,2)] by blast
  show ?thesis
  proof (cases "non_overlapping a w s")
    case True
    with d assms(3) show ?thesis by auto
  next
    case False
    with d assms(3)
    have "retry a w max_offset k (Suc used) (fst r, snd r + 4) (Some s) = Inr (cur', r', u, ran_out)"
      by simp
    from retry_count [OF assms(1,2) this] show ?thesis by simp
  qed
qed

lemma retry_raises:
  assumes "max_offset \<le> 0"
  shows "retry a w max_offset max_tries used r cur = Inl ValueError"
proof -
  have "retry a w max_offset (Suc 99) used r cur = Inl ValueError"
    by (simp only: retry.simps draw_strips_raises [OF assms] sum.case)
  then show ?thesis
    by (simp only: max_tries_Suc)
qed

lemma sample_loop_raises:
  assumes "max_offset \<le> 0"
  shows "sample_loop a w max_offset (Suc i) r cur = Inl ValueError"
  using assms by (simp add: retry_raises)

lemma sample_loop_returns:
  assumes "0 < num_images a" and "0 < max_offset"
  shows "\<exists>drawn r' warns. sample_loop a w max_offset n r cur = Inr (drawn, r', warns)
           \<and> length drawn = n
           \<and> (\<forall>(s, used, ran_out)\<in>set drawn. 1 \<le> used \<and> used \<le> 100
                 \<and> ran_out = (\<not> non_overlapping a w s) \<and> (ran_out \<longrightarrow> used = 100))
           \<and> warns = replicate (length (filter (\<lambda>x. snd (snd x)) drawn)) exhausted_warning"
proof (induction n arbitrary: r cur)
  case 0
  show ?case by simp
next
  case (Suc n)
  obtain cur' r' u ran_out where
    t0: "retry a w max_offset max_tries 0 r cur = Inr (cur', r', u, ran_out)"
    using retry_total [OF assms, of w max_tries 0 r cur] by (metis prod_cases4)
  then have t: "retry a w max_offset (Suc 99) 0 r cur = Inr (cur', r', u, ran_out)"
    unfolding max_tries_Suc .
  from retry_count [OF assms t] have c: "u \<le> 100" "ran_out \<longrightarrow> u = 100"
    by simp_all
  from retry_progress [OF assms t] have p: "1 \<le> u"
    by simp
  from retry_last_drawn [OF assms t] obtain s where
    s: "cur' = Some s" "ran_out = (\<not> non_overlapping a w s)"
    by auto
  have ok: "1 \<le> u \<and> u \<le> 100 \<and> ran_out = (\<not> non_overlapping a w s) \<and> (ran_out \<longrightarrow> u = 100)"
    using c p s(2) by auto
  obtain drawn r'' warns where
    ih: "sample_loop a w max_offset n r' (Some s) = Inr (drawn, r'', warns)"
        "length drawn = n"
        "\<forall>(s, used, ran_out)\<in>set drawn. 1 \<le> used \<and> used \<le> 100
                 \<and> ran_out = (\<not> non_overlapping a w s) \<and> (ran_out \<longrightarrow> used = 100)"
        "warns = replicate (length (filter (\<lambda>x. snd (snd x)) drawn)) exhausted_warning"
    using Suc.IH [of r' "Some s"] by blast
  have "sample_loop a w max_offset (Suc n) r cur =
      Inr ((s, u, ran_out) # drawn, r'', (if ran_out then [exhausted_warning] else []) @ warns)"
    using t0 s(1) ih(1) by simp
  with ok ih(2,3,4) show ?case by simp
qed


text \<open>
  C2. When the neighbours graph has at most one edge, \<open>compute_threshold\<close> returns without
  raising, \<open>errors_negative_sampled\<close> is empty and \<open>max_error\<close> is \<open>np.inf\<close>: no score is
  greater than it, so the threshold rejects nothing. No strip pair is sampled, the random
  generator is not touched and no registration task is submitted.
\<close>

theorem threshold_few_edges_accepts_all:
  assumes "length (edges a) \<le> 1"
  shows "compute_threshold a order =
           Inr \<lparr>errors_negative_sampled = [], max_error = PInf,
                samples = [], warnings = [], draws = 0, submitted = []\<rparr>
         \<and> \<not> score_gt e PInf"
  using assms by (cases e) (simp_all add: compute_threshold_def)

theorem threshold_few_edges_accepts_all_witness:
  "compute_threshold two_tiles [] =
           Inr \<lparr>errors_negative_sampled = [], max_error = PInf,
                samples = [], warnings = [], draws = 0, submitted = []\<rparr>
         \<and> \<not> score_gt (Fin 7) PInf"
proof -
  have "length (edges two_tiles) \<le> 1"
    by (simp add: two_tiles_def)
  from threshold_few_edges_accepts_all [OF this] show ?thesis .
qed

lemma strip_width_Max:
  assumes "edges a \<noteq> []"
  shows "strip_width a = Inr (Max (set (widths a)))"
  unfolding strip_width_def using assms by (intro array_max_Max) (simp add: widths_def)

text \<open>
  C3, amended. The strip width \<open>w\<close> is \<open>widths.max()\<close>: the largest, over the edges of the
  graph, of each edge's smallest intersection dimension (not the smallest over the edges).
\<close>

theorem strip_width_is_largest_overlap:
  assumes "edges a \<noteq> []"
  shows "strip_width a =
           Inr (Max ((\<lambda>(t1, t2). min (fst (shape (its_of a t1 t2 0))) (snd (shape (its_of a t1 t2 0))))
                       ` set (edges a)))"
  using strip_width_Max [OF assms] by (simp add: widths_def)

theorem strip_width_is_largest_overlap_witness:
  "strip_width three_tiles = Inr (Max {3, 5})"
proof -
  have "edges three_tiles \<noteq> []"
    by (simp add: three_tiles_def)
  from strip_width_is_largest_overlap [OF this] show ?thesis
    by (simp add: three_tiles_def)
qed

text \<open>
  C3 as stated fails: with two edges whose smallest intersection dimensions are 3 and 5,
  the strip width is 5, not 3.
\<close>

theorem strip_width_not_smallest_overlap:
  "widths three_tiles = [3, 5] \<and> strip_width three_tiles = Inr 5
   \<and> strip_width three_tiles \<noteq> Inr (Min (set (widths three_tiles)))"
  by (simp add: strip_width_def widths_def three_tiles_def)


text \<open>
  C7, amended. Provided the layer has tiles and \<open>max_offset\<close> is positive (both \<open>randint\<close>
  calls have a non-empty range), the sampling loop returns for every \<open>n\<close>, every generator and
  every earlier binding; it stores exactly \<open>n\<close> samples; each sample took between 1 and 100
  passes of the retry loop; a sample's retry loop ran out exactly when the stored pair
  fails the non-overlap test, and then it took all 100 passes; one warning is issued per
  sample whose retries ran out. In the retry loop itself the pair that is kept is the one
  drawn in the last pass made, also when the passes ran out.
\<close>

theorem strip_sampling_bounded:
  assumes "0 < num_images a" and "0 < max_offset"
  shows "(\<exists>drawn r' warns. sample_loop a w max_offset n r cur = Inr (drawn, r', warns)
            \<and> length drawn = n
            \<and> (\<forall>(s, used, ran_out)\<in>set drawn. 1 \<le> used \<and> used \<le> 100
                  \<and> ran_out = (\<not> non_overlapping a w s) \<and> (ran_out \<longrightarrow> used = 100))
            \<and> warns = replicate (length (filter (\<lambda>x. snd (snd x)) drawn)) exhausted_warning)
       \<and> (\<exists>s r' used ran_out. retry a w max_offset max_tries 0 r cur = Inr (Some s, r', used, ran_out)
            \<and> 1 \<le> used \<and> used \<le> 100
            \<and> draw_strips a max_offset (fst r, snd r + 4 * (used - 1)) = Inr (s, r')
            \<and> ran_out = (\<not> non_overlapping a w s) \<and> (ran_out \<longrightarrow> used = 100))"
proof
  show "\<exists>drawn r' warns. sample_loop a w max_offset n r cur = Inr (drawn, r', warns)
            \<and> length drawn = n
            \<and> (\<forall>(s, used, ran_out)\<in>set drawn. 1 \<le> used \<and> used \<le> 100
                  \<and> ran_out = (\<not> non_overlapping a w s) \<and> (ran_out \<longrightarrow> used = 100))
            \<and> warns = replicate (length (filter (\<lambda>x. snd (snd x)) drawn)) exhausted_warning"
    using assms by (rule sample_loop_returns)
next
  obtain cur' r' u ran_out where
    t0: "retry a w max_offset max_tries 0 r cur = Inr (cur', r', u, ran_out)"
    using retry_total [OF assms, of w max_tries 0 r cur] by (metis prod_cases4)
  then have t: "retry a w max_offset (Suc 99) 0 r cur = Inr (cur', r', u, ran_out)"
    unfolding max_tries_Suc .
  from retry_count [OF assms t] have c: "u \<le> 100" "ran_out \<longrightarrow> u = 100"
    by simp_all
  from retry_progress [OF assms t] have p: "1 \<le> u"
    by simp
  from retry_last_drawn [OF assms t] obtain s where
    s: "cur' = Some s" "draw_strips a max_offset (fst r, snd r + 4 * (u - 1)) = Inr (s, r')"
       "ran_out = (\<not> non_overlapping a w s)"
    by auto
  show "\<exists>s r' used ran_out. retry a w max_offset max_tries 0 r cur = Inr (Some s, r', used, ran_out)
            \<and> 1 \<le> used \<and> used \<le> 100
            \<and> draw_strips a max_offset (fst r, snd r + 4 * (used - 1)) = Inr (s, r')
            \<and> ran_out = (\<not> non_overlapping a w s) \<and> (ran_out \<longrightarrow> used = 100)"
    using t0 c p s by blast
qed

theorem strip_sampling_bounded_witness:
  "(\<exists>drawn r' warns. sample_loop three_tiles 5 5 20 (seeded three_tiles, 0) None = Inr (drawn, r', warns)
            \<and> length drawn = 20
            \<and> (\<forall>(s, used, ran_out)\<in>set drawn. 1 \<le> used \<and> used \<le> 100
                  \<and> ran_out = (\<not> non_overlapping three_tiles 5 s) \<and> (ran_out \<longrightarrow> used = 100))
            \<and> warns = replicate (length (filter (\<lambda>x. snd (snd x)) drawn)) exhausted_warning)
       \<and> (\<exists>s r' used ran_out. retry three_tiles 5 5 max_tries 0 (seeded three_tiles, 0) None
                = Inr (Some s, r', used, ran_out)
            \<and> 1 \<le> used \<and> used \<le> 100
            \<and> draw_strips three_tiles 5 (fst (seeded three_tiles, 0 :: nat),
                  snd (seeded three_tiles, 0 :: nat) + 4 * (used - 1)) = Inr (s, r')
            \<and> ran_out = (\<not> non_overlapping three_tiles 5 s) \<and> (ran_out \<longrightarrow> used = 100))"
proof -
  have h1: "0 < num_images three_tiles"
    by (simp add: three_tiles_def)
  have h2: "(0::int) < 5"
    by simp
  from strip_sampling_bounded [OF h1 h2] show ?thesis .
qed

text \<open>
  The branch in which the retries run out is reachable: with a generator that always
  draws 0, every pass proposes the same tile with equal offsets, no pass ends in \<open>break\<close>,
  each sample takes 100 passes and 4 raw draws per pass, and each issues the warning.
\<close>

lemma retries_run_out_on_constant_draws:
  "(case sample_loop three_tiles 5 5 2 (unseeded three_tiles, 0) None of
      Inl e \<Rightarrow> None
    | Inr (drawn, r, warns) \<Rightarrow> Some (drawn, snd r, warns))
   = Some ([((0, 0, 0, 0), 100, True), ((0, 0, 0, 0), 100, True)], 800,
           [exhausted_warning, exhausted_warning])"
  by code_simp

text \<open>
  C7 as stated fails: when the strip width equals the tile height, \<open>max_offset\<close> is 0 and the
  first pass of the first retry loop raises ValueError instead of producing a pair.
\<close>

theorem strip_sampling_raises_without_room:
  "strip_width wide_tiles = Inr 10 \<and> size0 wide_tiles - 10 = 0
   \<and> sample_loop wide_tiles 10 0 20 (seeded wide_tiles, 0) None = Inl ValueError"
proof -
  have "sample_loop wide_tiles 10 0 (Suc 19) (seeded wide_tiles, 0) None = Inl ValueError"
    by (rule sample_loop_raises) simp
  then show ?thesis
    by (simp add: strip_width_def widths_def wide_tiles_def three_tiles_def)
qed


lemma sample_loop_raises_pos:
  assumes "max_offset \<le> 0" and "0 < k"
  shows "sample_loop a w max_offset k r cur = Inl ValueError"
proof -
  obtain i where "k = Suc i"
    using assms(2) by (cases k) simp_all
  then show ?thesis
    using assms(1) by (simp only: sample_loop_raises)
qed

text \<open>
  C10. For a graph with more than one edge on a layer whose graph is simple (no more edges
  than pairs of tiles): if the smallest intersection dimension of some edge reaches the
  tile's first-axis size, then the strip width is at least that size, \<open>max_offset\<close> is not
  positive, the offset draw raises ValueError, and so does \<open>compute_threshold\<close>.
\<close>

theorem threshold_raises_when_overlap_fills_tile:
  assumes "1 < length (edges a)"
    and "(t1, t2) \<in> set (edges a)"
    and "size0 a \<le> min (fst (shape (its_of a t1 t2 0))) (snd (shape (its_of a t1 t2 0)))"
    and "int (length (edges a)) \<le> num_images a * (num_images a - 1) div 2"
  shows "compute_threshold a order = Inl ValueError
         \<and> (\<exists>w. strip_width a = Inr w \<and> size0 a - w \<le> 0 \<and> randint2 (size0 a - w) r = Inl ValueError)"
proof -
  define w where "w = Max (set (widths a))"
  have ne: "edges a \<noteq> []"
    using assms(1) by auto
  then have sw: "strip_width a = Inr w"
    unfolding w_def by (rule strip_width_Max)
  have "min (fst (shape (its_of a t1 t2 0))) (snd (shape (its_of a t1 t2 0))) \<in> set (widths a)"
    using assms(2) by (force simp: widths_def)
  then have "min (fst (shape (its_of a t1 t2 0))) (snd (shape (its_of a t1 t2 0))) \<le> w"
    unfolding w_def by simp
  with assms(3) have mo: "size0 a - w \<le> 0"
    by linarith
  define ndp where "ndp = num_images a * (num_images a - 1) div 2 - int (length (edges a))"
  have "0 \<le> ndp"
    using assms(4) by (simp add: ndp_def)
  then have "compute_threshold a order = Inl ValueError"
    using assms(1) sw mo
    by (simp add: compute_threshold_def Let_def ndp_def [symmetric] sample_loop_raises_pos)
  moreover have "randint2 (size0 a - w) r = Inl ValueError"
    using mo by (rule randint2_raises)
  ultimately show ?thesis
    using sw mo by simp
qed

theorem threshold_raises_when_overlap_fills_tile_witness:
  "compute_threshold wide_tiles [0..<20] = Inl ValueError
   \<and> (\<exists>w. strip_width wide_tiles = Inr w \<and> size0 wide_tiles - w \<le> 0
          \<and> randint2 (size0 wide_tiles - w) (seeded wide_tiles, 0) = Inl ValueError)"
proof -
  have h1: "1 < length (edges wide_tiles)"
    by (simp add: wide_tiles_def three_tiles_def)
  have h2: "(0, 1) \<in> set (edges wide_tiles)"
    by (simp add: wide_tiles_def three_tiles_def)
  have h3: "size0 wide_tiles \<le> min (fst (shape (its_of wide_tiles 0 1 0))) (snd (shape (its_of wide_tiles 0 1 0)))"
    by (simp add: wide_tiles_def three_tiles_def)
  have h4: "int (length (edges wide_tiles)) \<le> num_images wide_tiles * (num_images wide_tiles - 1) div 2"
    by (simp add: wide_tiles_def three_tiles_def)
  from threshold_raises_when_overlap_fills_tile [OF h1 h2 h3 h4] show ?thesis .
qed


lemma register_strips_returns:
  assumes "\<forall>t. \<exists>img. read a t (channel a) = Inr img"
    and "\<forall>x y. \<exists>v. utils_register a x y (filter_sigma a) 1 = Inr v"
  shows "\<exists>v. register_strips a w s = Inr v"
proof -
  obtain t1 t2 o1 o2 where s: "s = (t1, t2, o1, o2)"
    by (cases s) auto
  obtain i1 where i1: "read a t1 (channel a) = Inr i1"
    using assms(1) by blast
  obtain i2 where i2: "read a t2 (channel a) = Inr i2"
    using assms(1) by blast
  obtain v where "utils_register a (slice_rows i1 o1 (o1 + w)) (slice_rows i2 o2 (o2 + w))
      (filter_sigma a) 1 = Inr v"
    using assms(2) by blast
  then show ?thesis
    using s i1 i2 by (cases v) (simp add: register_strips_def)
qed

text \<open>
  C8. For a graph with more than one edge, when the threshold computation goes through
  (positive \<open>max_offset\<close>, a simple graph, reads and registrations that return, every
  registration task completing), the number of sampled strip pairs is 1000 if the number
  of non-adjacent tile pairs \<open>num_tiles * (num_tiles - 1) // 2 - len(edges)\<close> exceeds 8, and
  ten times that number plus one otherwise; there is one negative error per sample.
\<close>

theorem sample_count_heuristic:
  assumes "1 < length (edges a)"
    and "strip_width a = Inr w" and "w < size0 a" and "0 < num_images a"
    and "ndp = num_images a * (num_images a - 1) div 2 - int (length (edges a))"
    and "0 \<le> ndp"
    and "set order = {0..<nat (if 8 < ndp then 1000 else (ndp + 1) * 10)}"
    and "\<forall>t. \<exists>img. read a t (channel a) = Inr img"
    and "\<forall>x y. \<exists>v. utils_register a x y (filter_sigma a) 1 = Inr v"
  shows "\<exists>t. compute_threshold a order = Inr t
           \<and> int (length (samples t)) = (if 8 < ndp then 1000 else (ndp + 1) * 10)
           \<and> length (errors_negative_sampled t) = length (samples t)
           \<and> submitted t = map fst (samples t)"
proof -
  define n where "n = (if 8 < ndp then 1000 else (ndp + 1) * 10)"
  define rs where "rs = (if randomize a = False then seeded a else unseeded a)"
  have n0: "0 \<le> n"
    using assms(6) by (simp add: n_def)
  have mo: "0 < size0 a - w"
    using assms(3) by simp
  obtain drawn r' warns where
    sl: "sample_loop a w (size0 a - w) (nat n) (rs, 0) None = Inr (drawn, r', warns)"
    and len: "length drawn = nat n"
    using sample_loop_returns [OF assms(4) mo, of w "nat n" "(rs, 0)" None] by blast
  obtain f where f: "\<forall>s. register_strips a w s = Inr (f s)"
    using register_strips_returns [OF assms(8,9)] by metis
  have "set order = {0..<length (map fst drawn)}"
    using assms(7) len by (simp add: n_def)
  moreover have "\<forall>s\<in>set (map fst drawn). register_strips a w s = Inr (f s)"
    using f by blast
  ultimately have ex: "execute_parallel_with_ordered_results (register_strips a w) (map fst drawn) order
      = Inr (map (\<lambda>s. Some (f s)) (map fst drawn))"
    by (rule ordered_results_all_return)
  have "compute_threshold a order =
      Inr \<lparr>errors_negative_sampled = map f (map fst drawn),
           max_error = percentile a (map f (map fst drawn)) (false_positive_ratio a * 100),
           samples = drawn, warnings = warns, draws = snd r', submitted = map fst drawn\<rparr>"
    unfolding compute_threshold_def Let_def assms(5) [symmetric] n_def [symmetric] rs_def [symmetric]
    using assms(1,2) n0 sl ex by (simp add: comp_def)
  then show ?thesis
    using len n0 by (simp add: n_def)
qed

theorem sample_count_heuristic_witness:
  "(\<exists>t. compute_threshold three_tiles [0..<20] = Inr t
           \<and> int (length (samples t)) = 20
           \<and> length (errors_negative_sampled t) = length (samples t)
           \<and> submitted t = map fst (samples t))"
proof -
  have h1: "1 < length (edges three_tiles)"
    by (simp add: three_tiles_def)
  have h2: "strip_width three_tiles = Inr 5"
    by (simp add: strip_width_def widths_def three_tiles_def)
  have h3: "5 < size0 three_tiles"
    by (simp add: three_tiles_def)
  have h4: "0 < num_images three_tiles"
    by (simp add: three_tiles_def)
  have h5: "1 = num_images three_tiles * (num_images three_tiles - 1) div 2 - int (length (edges three_tiles))"
    by (simp add: three_tiles_def)
  have h6: "(0::int) \<le> 1"
    by simp
  have h7: "set [0..<20] = {0..<nat (if 8 < (1::int) then 1000 else (1 + 1) * 10)}"
    by simp
  have h8: "\<forall>t. \<exists>img. read three_tiles t (channel three_tiles) = Inr img"
    by (simp add: three_tiles_def)
  have h9: "\<forall>x y. \<exists>v. utils_register three_tiles x y (filter_sigma three_tiles) 1 = Inr v"
    by (simp add: three_tiles_def)
  from sample_count_heuristic [OF h1 h2 h3 h4 h5 h6 h7 h8 h9] show ?thesis
    by simp
qed

section \<open>Properties of the mosaic assembler\<close>

lemma length_fold_flip_x [simp]:
  "length (fold (\<lambda>i r. r[i := rev (r ! i)]) is rs) = length rs"
  by (induction "is" arbitrary: rs) simp_all

lemma nth_fold_flip_x:
  assumes "j < length rs"
  shows "fold (\<lambda>i r. r[i := rev (r ! i)]) [0..<k] rs ! j = (if j < k then rev (rs ! j) else rs ! j)"
  using assms by (induction k) (auto simp: nth_list_update less_Suc_eq)

lemma flip_x_reverses_rows: "flip_x rs = map rev rs"
  unfolding flip_x_def by (rule nth_equalityI) (simp_all add: nth_fold_flip_x)

lemma length_fold_flip_y:
  "length (fold (\<lambda>i r. r[i := r ! (length r - 1 - i), length r - 1 - i := r ! i]) is rs) = length rs"
  by (induction "is" arbitrary: rs) simp_all

lemma nth_fold_flip_y:
  assumes "j < length rs" and "k \<le> length rs div 2"
  shows "fold (\<lambda>i r. r[i := r ! (length r - 1 - i), length r - 1 - i := r ! i]) [0..<k] rs ! j
         = (if j < k \<or> length rs - k \<le> j then rs ! (length rs - 1 - j) else rs ! j)"
  using assms
proof (induction k arbitrary: j)
  case 0
  then show ?case by simp
next
  case (Suc k)
  let ?F = "\<lambda>i r. r[i := r ! (length r - 1 - i), length r - 1 - i := r ! i]"
  define n where "n = length rs"
  define ys where "ys = fold ?F [0..<k] rs"
  have len: "length ys = n"
    unfolding ys_def n_def by (rule length_fold_flip_y)
  have k: "k < n div 2"
    using Suc.prems by (simp add: n_def)
  have ih: "ys ! i = (if i < k \<or> n - k \<le> i then rs ! (n - 1 - i) else rs ! i)" if "i < n" for i
    using Suc.IH [of i] that k unfolding ys_def n_def by simp
  have "fold ?F [0..<Suc k] rs = ?F k ys"
    by (simp add: ys_def)
  then have step: "fold ?F [0..<Suc k] rs = ys[k := ys ! (n - 1 - k), n - 1 - k := ys ! k]"
    by (simp only: len)
  have jn: "j < n"
    using Suc.prems by (simp add: n_def)
  have ar: "k < n" "\<not> n - k \<le> k" "n - 1 - k < n" "\<not> n - 1 - k < k" "\<not> n - k \<le> n - 1 - k"
    using k by linarith+
  have yk: "ys ! k = rs ! k"
    using ih [OF ar(1)] ar(2) by simp
  have yk': "ys ! (n - 1 - k) = rs ! (n - 1 - k)"
    using ih [OF ar(3)] ar(4,5) by simp
  consider "j = n - 1 - k" | "j = k" "j \<noteq> n - 1 - k" | "j \<noteq> k" "j \<noteq> n - 1 - k"
    by blast
  then have "(ys[k := ys ! (n - 1 - k), n - 1 - k := ys ! k]) ! j
      = (if j < Suc k \<or> n - Suc k \<le> j then rs ! (n - 1 - j) else rs ! j)"
  proof cases
    case 1
    then show ?thesis using k jn len yk by simp
  next
    case 2
    then show ?thesis using k jn len yk' by simp
  next
    case 3
    have "(j < Suc k \<or> n - Suc k \<le> j) = (j < k \<or> n - k \<le> j)"
      using 3 k by auto
    then show ?thesis using 3 jn len ih [of j] by simp
  qed
  then show ?case
    unfolding step n_def [symmetric] .
qed

lemma flip_y_reverses_row_order: "flip_y rs = rev rs"
proof (rule nth_equalityI)
  show "length (flip_y rs) = length (rev rs)"
    unfolding flip_y_def by (simp only: length_fold_flip_y length_rev)
next
  fix j assume "j < length (flip_y rs)"
  then have j: "j < length rs"
    unfolding flip_y_def by (simp only: length_fold_flip_y)
  have "j < length rs div 2 \<or> length rs - length rs div 2 \<le> j \<or> length rs - 1 - j = j"
    using j by linarith
  moreover have "flip_y rs ! j
      = (if j < length rs div 2 \<or> length rs - length rs div 2 \<le> j
         then rs ! (length rs - 1 - j) else rs ! j)"
    unfolding flip_y_def using j by (intro nth_fold_flip_y) simp_all
  ultimately show "flip_y rs ! j = rev rs ! j"
    using j by (auto simp: rev_nth)
qed

lemma paste_tiles_ignores_flips [simp]:
  "paste_tiles (m\<lparr>flip_mosaic_x := fx, flip_mosaic_y := fy\<rparr>) ch si positions st
     = paste_tiles m ch si positions st"
  by (induction m ch si positions st rule: paste_tiles.induct) (simp_all split: sum.splits)

text \<open>
  C6. The flips are applied to the assembled canvas, once, after the paste loop: assembling
  with the flags \<open>flip_mosaic_x = fx\<close> and \<open>flip_mosaic_y = fy\<close> gives the canvas assembled
  without flips, with every row reversed when \<open>fx\<close> is set and then the order of the rows
  reversed when \<open>fy\<close> is set (for any number of rows, odd or even). The tiles read, corrected
  and pasted are the same, and so is an exception raised by a read.
\<close>

theorem flips_applied_once_to_whole_canvas:
  "assemble_channel_parallel (m\<lparr>flip_mosaic_x := fx, flip_mosaic_y := fy\<rparr>) ch positions out =
     (let flipped = (\<lambda>c. c\<lparr>rows := (if fy then rev else id) ((if fx then map rev else id) (rows c))\<rparr>)
      in case assemble_channel_parallel (m\<lparr>flip_mosaic_x := False, flip_mosaic_y := False\<rparr>)
                ch positions out of
           (Inl e, buf, acts) \<Rightarrow> (Inl e, buf, acts)
         | (Inr canvas, buf, acts) \<Rightarrow> (Inr (flipped canvas), map_option flipped buf, acts))"
  by (cases out)
     (auto simp: assemble_channel_parallel_def apply_flips_def flip_x_reverses_rows
        flip_y_reverses_row_order split: prod.splits sum.splits)

section \<open>Properties of the edge registration\<close>

lemma execute_parallel_register_pair:
  assumes "\<forall>i\<in>set order. align (edge_key (es ! i)) = Inr (v (edge_key (es ! i)))"
  shows "execute_parallel (register_pair align) es order c
         = fold (\<lambda>i c'. AList.update (edge_key (es ! i)) (v (edge_key (es ! i))) c') order c"
  using assms unfolding execute_parallel_def
  by (induction order arbitrary: c) (simp_all add: register_pair_def Let_def)

lemma map_of_fold_update:
  "map_of (fold (\<lambda>i c'. AList.update (kf i) (vf (kf i)) c') order c) k
     = (if k \<in> kf ` set order then Some (vf k) else map_of c k)"
  by (induction order arbitrary: c) (auto simp: update_conv')

lemma distinct_fold_update:
  "distinct (map fst c) \<Longrightarrow> distinct (map fst (fold (\<lambda>i c'. AList.update (kf i) (vf i) c') order c))"
  by (induction order arbitrary: c) (simp_all add: distinct_update)

lemma update_append_fresh:
  "k \<notin> fst ` set ys \<Longrightarrow> AList.update k v (ys @ zs) = ys @ AList.update k v zs"
  by (induction ys) auto

lemma reject_fold_map:
  assumes "distinct (map fst (ys @ xs))"
  shows "fold (\<lambda>kv c'. if P (snd kv) then AList.update (fst kv) (g (snd kv)) c' else c') xs (ys @ xs)
         = ys @ map (\<lambda>(k, v). (k, if P v then g v else v)) xs"
  using assms
proof (induction xs arbitrary: ys)
  case Nil
  show ?case by simp
next
  case (Cons x xs)
  obtain k v where x: "x = (k, v)"
    by (cases x)
  let ?h = "\<lambda>(k, v). (k, if P v then g v else v)"
  have fresh: "k \<notin> fst ` set ys"
    using Cons.prems x by auto
  have first: "(if P (snd x) then AList.update (fst x) (g (snd x)) (ys @ x # xs) else ys @ x # xs)
      = (ys @ [?h x]) @ xs"
    using fresh x by (simp add: update_append_fresh)
  have "distinct (map fst ((ys @ [?h x]) @ xs))"
    using Cons.prems x by simp
  from Cons.IH [OF this] show ?case
    using first by simp
qed

lemma reject_all_map:
  assumes "distinct (map fst c)"
  shows "reject_all threshold m c
         = map (\<lambda>(k, v). (k, if rejected threshold m v then (fst v, PInf) else v)) c"
  using reject_fold_map [of "[]" c "rejected threshold m" "\<lambda>v. (fst v, PInf)"] assms
  by (simp add: reject_all_def)

lemma one_record_per_key:
  assumes "distinct (map fst r)" and "map_of r k = Some v"
  shows "length (filter (\<lambda>kv. fst kv = k) r) = 1"
  using assms
proof (induction r)
  case Nil
  then show ?case by simp
next
  case (Cons x r)
  show ?case
  proof (cases "fst x = k")
    case True
    then have "k \<notin> fst ` set r"
      using Cons.prems(1) by auto
    then have "filter (\<lambda>kv. fst kv = k) r = []"
      by (auto simp: filter_empty_conv)
    with True show ?thesis by simp
  next
    case False
    with Cons show ?thesis by (cases x) auto
  qed
qed


text \<open>
  A registration task that raises is not noticed by \<open>execute_parallel\<close>:
  \<open>register_all\<close> still returns, and the edge has no record.
\<close>

lemma failed_registration_leaves_no_record:
  "records (edge_register_all (\<lambda>k. Inl (TaskFailure 0)) [(0, 1)] [0] PInf 15 []) = []"
  by (simp add: edge_register_all_def execute_parallel_def register_pair_def reject_all_def)

text \<open>
  C4, amended. Starting from an empty record table, with every registration task
  completing in any order and the primitive returning \<open>v k\<close> for the key \<open>k\<close> of every
  edge: after \<open>register_all\<close> every graph edge has exactly one record, the records belong to edges only,
  the shift of a record is the computed shift, and its error is \<open>np.inf\<close> if the computed error
  is greater than the threshold or a component of the shift is greater in absolute value
  than \<open>max_shift_pixels\<close>, and the computed error otherwise.
\<close>

theorem every_edge_has_one_thresholded_record:
  assumes "set order = {0..<length es}"
    and "\<forall>e\<in>set es. align (edge_key e) = Inr (v (edge_key e))"
  shows "(\<forall>e\<in>set es.
            length (filter (\<lambda>kv. fst kv = edge_key e)
                      (records (edge_register_all align es order threshold max_shift_pixels []))) = 1
          \<and> map_of (records (edge_register_all align es order threshold max_shift_pixels [])) (edge_key e)
              = Some (fst (v (edge_key e)),
                      if score_gt (snd (v (edge_key e))) threshold
                         \<or> shift_exceeds (fst (v (edge_key e))) max_shift_pixels
                      then PInf else snd (v (edge_key e))))
       \<and> fst ` set (records (edge_register_all align es order threshold max_shift_pixels []))
           = edge_key ` set es"
proof -
  define kf where "kf = (\<lambda>i. edge_key (es ! i))"
  define c1 where "c1 = fold (\<lambda>i c'. AList.update (kf i) (v (kf i)) c') order []"
  define h where "h = (\<lambda>x :: shift \<times> score. if rejected threshold max_shift_pixels x then (fst x, PInf) else x)"
  define r where "r = map (\<lambda>(k, x). (k, h x)) c1"
  have "\<forall>i\<in>set order. align (edge_key (es ! i)) = Inr (v (edge_key (es ! i)))"
    using assms by simp
  then have ex: "execute_parallel (register_pair align) es order [] = c1"
    unfolding c1_def kf_def by (rule execute_parallel_register_pair)
  have d1: "distinct (map fst c1)"
    unfolding c1_def by (rule distinct_fold_update) simp
  have keys: "kf ` set order = edge_key ` set es"
    unfolding kf_def assms(1) by (force simp: in_set_conv_nth)
  have m1: "map_of c1 k = (if k \<in> edge_key ` set es then Some (v k) else None)" for k
    unfolding c1_def using map_of_fold_update [of kf v order "[]" k] keys by simp
  have rec: "records (edge_register_all align es order threshold max_shift_pixels []) = r"
    unfolding r_def h_def using reject_all_map [OF d1] ex by (simp add: edge_register_all_def)
  have dr: "distinct (map fst r)"
    using d1 by (simp add: r_def comp_def case_prod_unfold)
  have mr: "map_of r k = map_option h (map_of c1 k)" for k
    unfolding r_def by (simp add: map_of_map)
  have nn: "(map_of r k \<noteq> None) = (k \<in> edge_key ` set es)" for k
    by (cases "k \<in> edge_key ` set es") (simp_all only: mr m1 if_True if_False option.map option.distinct not_False_eq_True not_True_eq_False not_not refl)
  have dom: "fst ` set r = edge_key ` set es"
  proof -
    have "fst ` set r = dom (map_of r)"
      by (simp add: dom_map_of_conv_image_fst)
    also have "\<dots> = {k. k \<in> edge_key ` set es}"
      unfolding dom_def by (simp only: nn)
    also have "\<dots> = edge_key ` set es"
      by simp
    finally show ?thesis .
  qed
  have each: "length (filter (\<lambda>kv. fst kv = edge_key e) r) = 1
      \<and> map_of r (edge_key e) = Some (fst (v (edge_key e)),
            if score_gt (snd (v (edge_key e))) threshold
               \<or> shift_exceeds (fst (v (edge_key e))) max_shift_pixels
            then PInf else snd (v (edge_key e)))" if "e \<in> set es" for e
  proof -
    have "map_of r (edge_key e) = Some (h (v (edge_key e)))"
      using that by (simp add: mr m1)
    moreover from this have "length (filter (\<lambda>kv. fst kv = edge_key e) r) = 1"
      using dr by (intro one_record_per_key)
    ultimately show ?thesis
      by (simp add: h_def rejected_def)
  qed
  show ?thesis
    unfolding rec using each dom by blast
qed

theorem every_edge_has_one_thresholded_record_witness:
  "map_of (records (edge_register_all (\<lambda>k. Inr (example_records k)) [(2, 0), (2, 3), (3, 5)] [2, 0, 1]
             (Fin 3) 15 [])) (0, 2) = Some ((1, 2), PInf)
   \<and> map_of (records (edge_register_all (\<lambda>k. Inr (example_records k)) [(2, 0), (2, 3), (3, 5)] [2, 0, 1]
             (Fin 3) 15 [])) (2, 3) = Some ((30, 0), PInf)
   \<and> map_of (records (edge_register_all (\<lambda>k. Inr (example_records k)) [(2, 0), (2, 3), (3, 5)] [2, 0, 1]
             (Fin 3) 15 [])) (3, 5) = Some ((1, 1), Fin 1)
   \<and> length (filter (\<lambda>kv. fst kv = (0, 2))
        (records (edge_register_all (\<lambda>k. Inr (example_records k)) [(2, 0), (2, 3), (3, 5)] [2, 0, 1]
             (Fin 3) 15 []))) = 1"
proof -
  let ?r = "records (edge_register_all (\<lambda>k. Inr (example_records k)) [(2, 0), (2, 3), (3, 5)] [2, 0, 1]
             (Fin 3) 15 [])"
  have h1: "set [2, 0, 1] = {0..<length [(2, 0), (2, 3), (3, 5 :: nat) :: nat \<times> nat]}"
    by auto
  have h2: "\<forall>e\<in>set [(2, 0), (2, 3), (3, 5 :: nat) :: nat \<times> nat].
      (Inr (example_records (edge_key e)) :: exn + shift \<times> score) = Inr (example_records (edge_key e))"
    by simp
  have k: "edge_key (2, 0) = (0, 2)" "edge_key (2, 3) = (2, 3)" "edge_key (3, 5) = (3, 5)"
    by (simp_all add: edge_key_def)
  have v: "example_records (0, 2) = ((1, 2), Fin 5)" "example_records (2, 3) = ((30, 0), Fin 1)"
    "example_records (3, 5) = ((1, 1), Fin 1)"
    by (simp_all add: example_records_def)
  have t: "score_gt (Fin 5) (Fin 3)" "\<not> score_gt (Fin 1) (Fin 3)"
    "shift_exceeds (30, 0) 15" "\<not> shift_exceeds (1, 1) 15"
    by (simp_all add: shift_exceeds_def)
  from every_edge_has_one_thresholded_record [OF h1 h2, of "Fin 3" 15]
  have b: "\<forall>e\<in>set [(2, 0), (2, 3), (3, 5)].
            length (filter (\<lambda>kv. fst kv = edge_key e) ?r) = 1
          \<and> map_of ?r (edge_key e)
              = Some (fst (example_records (edge_key e)),
                      if score_gt (snd (example_records (edge_key e))) (Fin 3)
                         \<or> shift_exceeds (fst (example_records (edge_key e))) 15
                      then PInf else snd (example_records (edge_key e)))"
    by (rule conjunct1)
  have "length (filter (\<lambda>kv. fst kv = edge_key (2, 0)) ?r) = 1
          \<and> map_of ?r (edge_key (2, 0))
              = Some (fst (example_records (edge_key (2, 0))),
                      if score_gt (snd (example_records (edge_key (2, 0)))) (Fin 3)
                         \<or> shift_exceeds (fst (example_records (edge_key (2, 0)))) 15
                      then PInf else snd (example_records (edge_key (2, 0))))"
    using b by (rule bspec) simp
  then have e1: "length (filter (\<lambda>kv. fst kv = (0, 2)) ?r) = 1" "map_of ?r (0, 2) = Some ((1, 2), PInf)"
    by (simp_all only: k v t fst_conv snd_conv if_True simp_thms)
  have "length (filter (\<lambda>kv. fst kv = edge_key (2, 3)) ?r) = 1
          \<and> map_of ?r (edge_key (2, 3))
              = Some (fst (example_records (edge_key (2, 3))),
                      if score_gt (snd (example_records (edge_key (2, 3)))) (Fin 3)
                         \<or> shift_exceeds (fst (example_records (edge_key (2, 3)))) 15
                      then PInf else snd (example_records (edge_key (2, 3))))"
    using b by (rule bspec) simp
  then have e2: "map_of ?r (2, 3) = Some ((30, 0), PInf)"
    by (simp_all only: k v t fst_conv snd_conv if_True simp_thms)
  have "length (filter (\<lambda>kv. fst kv = edge_key (3, 5)) ?r) = 1
          \<and> map_of ?r (edge_key (3, 5))
              = Some (fst (example_records (edge_key (3, 5))),
                      if score_gt (snd (example_records (edge_key (3, 5)))) (Fin 3)
                         \<or> shift_exceeds (fst (example_records (edge_key (3, 5)))) 15
                      then PInf else snd (example_records (edge_key (3, 5))))"
    using b by (rule bspec) simp
  then have e3: "map_of ?r (3, 5) = Some ((1, 1), Fin 1)"
    by (simp_all only: k v t fst_conv snd_conv if_False simp_thms)
  from e1 e2 e3 show ?thesis
    by (intro conjI)
qed

text \<open>
  C4 as stated fails in two ways. A registration task that raises is swallowed by the
  executor, so \<open>register_all\<close> completes and the edge has no record. And the shift test is
  per component: a shift of (11, 11) against a bound of 15 keeps its error although the
  length of the shift exceeds the bound.
\<close>

theorem record_missing_or_long_shift_kept:
  "map_of (records (edge_register_all
             (\<lambda>k. if k = (0, 2) then Inl (TaskFailure 0) else Inr ((0, 0), Fin 1))
             [(0, 2), (2, 3)] [0, 1] PInf 15 [])) (0, 2) = None
   \<and> length (filter (\<lambda>kv. fst kv = (0, 2))
         (records (edge_register_all
             (\<lambda>k. if k = (0, 2) then Inl (TaskFailure 0) else Inr ((0, 0), Fin 1))
             [(0, 2), (2, 3)] [0, 1] PInf 15 []))) = 0
   \<and> map_of (records (edge_register_all (\<lambda>k. Inr ((11, 11), Fin 1)) [(0, 2)] [0] (Fin 3) 15 []))
         (0, 2) = Some ((11, 11), Fin 1)
   \<and> (15 :: real) * 15 < 11 * 11 + 11 * 11"
  by (simp add: edge_register_all_def execute_parallel_def register_pair_def reject_all_def
        edge_key_def rejected_def shift_exceeds_def)

section \<open>Properties of the pipeline\<close>



lemma snd_call [simp]: "snd (call s outcome) = [s]"
  by (simp add: call_def split: sum.splits)










text \<open>
  Two behaviours of the pipeline around the thumbnail switch and the threshold: with
  several files, aligner arguments that carry \<open>do_make_thumbnail\<close> let the edge aligner run
  and then fail at the construction of the first layer aligner; and a threshold
  computation that raises ends the run there.
\<close>

lemma thumbnail_switch_breaks_later_cycles:
  "process_single [two_tile_file, two_tile_file] (Some \<lparr>do_make_thumbnail = Some False\<rparr>)
       (Some ()) (Inr ())
     = (Inl TypeError, [ComputeThreshold 0, RegisterEdges 0, SolvePositions 0])"
  by (simp add: process_single_def edge_aligner_run_def edge_make_thumbnail_def
        and_then_def call_def compute_threshold_def two_tile_file_def two_tiles_def three_tiles_def)

lemma threshold_failure_ends_run:
  "process_single [two_tile_file\<lparr>opened := Inr wide_tiles\<rparr>] (Some \<lparr>do_make_thumbnail = None\<rparr>)
       (Some ()) (Inr ())
     = (Inl ValueError, [ComputeThreshold 0])"
proof -
  have "compute_threshold wide_tiles ord = Inl ValueError" for ord
    by (simp add: compute_threshold_def strip_width_def widths_def wide_tiles_def three_tiles_def
          sample_loop_raises_pos)
  then show ?thesis
    by (simp add: process_single_def edge_aligner_run_def edge_make_thumbnail_def
          and_then_def call_def two_tile_file_def)
qed

section \<open>The assembler on a small mosaic\<close>

lemma flip_y_odd_rows: "flip_y [[1, 2], [3, 4], [5, 6]] = [[5, 6], [3, 4], [1, 2]]"
  by (simp add: flip_y_def)

lemma flip_x_rows: "flip_x [[1, 2], [3, 4], [5, 6]] = [[2, 1], [4, 3], [6, 5]]"
  by (simp add: flip_x_def upt_rec numeral_eq_Suc)

theorem flips_applied_once_to_whole_canvas_witness:
  "assemble_channel_parallel (strip_mosaic\<lparr>flip_mosaic_x := True, flip_mosaic_y := True\<rparr>) 0
      [(0, 0), (1, 0)] None
   = (Inr \<lparr>rows = [[0, 0], [3, 2], [2, 1]], ncols = 2\<rparr>, None,
      [TileRead 0 0, Corrected 0, Pasted 0, TileRead 0 1, Corrected 1, Pasted 1])"
proof -
  have "assemble_channel_parallel (strip_mosaic\<lparr>flip_mosaic_x := False, flip_mosaic_y := False\<rparr>) 0
      [(0, 0), (1, 0)] None
   = (Inr \<lparr>rows = [[1, 2], [2, 3], [0, 0]], ncols = 2\<rparr>, None,
      [TileRead 0 0, Corrected 0, Pasted 0, TileRead 0 1, Corrected 1, Pasted 1])"
    by (simp add: assemble_channel_parallel_def strip_mosaic_def zeros_def apply_flips_def
          numeral_eq_Suc)
  with flips_applied_once_to_whole_canvas [where m = strip_mosaic and fx = True and fy = True
      and ch = 0 and positions = "[(0, 0), (1, 0)]" and out = None]
  show ?thesis
    by simp
qed



end
